theory Spec2Isabelle
  imports Main "HOL-Library.Word"
begin

section \<open>Machine numbers\<close>

text \<open>
  \<^verbatim>\<open>long long\<close> is a 64-bit two's complement integer, modelled as \<open>64 word\<close> and read
  with \<open>sint\<close>. Addition, subtraction and multiplication are the word operations (they
  wrap around, as the generated machine code does). Division has no result for a zero
  divisor and for \<open>LLONG_MIN / -1\<close>: the model returns a fault there.

  \<^verbatim>\<open>double\<close> is IEEE 754 binary64, modelled by its 64 bits: bit 63 is the sign, bits
  62..52 the biased exponent, bits 51..0 the fraction. Arithmetic is exact arithmetic
  on the represented numbers followed by rounding to nearest, ties to even. An
  operation that produces a NaN produces the quiet NaN \<open>0x7FF8000000000000\<close>; which NaN
  a processor produces differs between architectures, so properties are stated with
  \<open>is_nan\<close>.
\<close>

type_synonym long_long = "64 word"
type_synonym double = "64 word"

function bitlen :: "int \<Rightarrow> nat" where
  "bitlen n = (if n \<le> 0 then 0 else Suc (bitlen (n div 2)))"
  by pat_completeness auto
termination
  by (relation "measure nat") auto

declare bitlen.simps [simp del]

definition magnitude :: "double \<Rightarrow> int" where
  "magnitude x = uint x mod 2 ^ 63"

definition sign_bit :: "double \<Rightarrow> bool" where
  "sign_bit x = (2 ^ 63 \<le> uint x)"

definition make_double :: "bool \<Rightarrow> int \<Rightarrow> double" where
  "make_double s m = word_of_int (if s then 2 ^ 63 + m else m)"

definition inf_magnitude :: int where
  "inf_magnitude = 2047 * 2 ^ 52"

definition default_nan :: double where
  "default_nan = make_double False (inf_magnitude + 2 ^ 51)"

definition is_nan :: "double \<Rightarrow> bool" where
  "is_nan x = (inf_magnitude < magnitude x)"

definition is_inf :: "double \<Rightarrow> bool" where
  "is_inf x = (magnitude x = inf_magnitude)"

definition is_zero :: "double \<Rightarrow> bool" where
  "is_zero x = (magnitude x = 0)"

text \<open>
  A finite double with magnitude bits \<open>m\<close> is the number
  \<open>significand m * 2 ^ exponent m\<close>, negated when the sign bit is set. Below \<open>2 ^ 52\<close>
  the magnitude is a subnormal number (or zero) and has no hidden bit.
\<close>

definition significand :: "int \<Rightarrow> int" where
  "significand m = (if m < 2 ^ 52 then m else 2 ^ 52 + m mod 2 ^ 52)"

definition exponent :: "int \<Rightarrow> int" where
  "exponent m = (if m < 2 ^ 52 then - 1074 else m div 2 ^ 52 - 1075)"

text \<open>\<open>round_half_even a b\<close> is the integer nearest to \<open>a / b\<close>, ties to even.\<close>

definition round_half_even :: "int \<Rightarrow> int \<Rightarrow> int" where
  "round_half_even a b =
     (let q = a div b; r = a mod b
      in if 2 * r < b then q
         else if b < 2 * r then q + 1
         else if even q then q else q + 1)"

text \<open>\<open>floor_log2 p q\<close> is the integer \<open>l\<close> with \<open>2 ^ l \<le> p / q < 2 ^ (l + 1)\<close>, for \<open>0 < p\<close>, \<open>0 < q\<close>.\<close>

definition floor_log2 :: "int \<Rightarrow> int \<Rightarrow> int" where
  "floor_log2 p q =
     (let l = int (bitlen p) - int (bitlen q)
      in if (if 0 \<le> l then q * 2 ^ nat l \<le> p else q \<le> p * 2 ^ nat (- l)) then l else l - 1)"

text \<open>
  \<open>round_magnitude p q\<close>: the magnitude bits of the double nearest to the positive
  rational \<open>p / q\<close>. The quotient is rounded to a multiple of \<open>2 ^ t\<close>, where \<open>t\<close> leaves 53
  significant bits and is at least the subnormal exponent. The rounded multiple \<open>n\<close>
  lies in \<open>0 .. 2 ^ 53\<close>; adding it to the exponent field carries into the exponent when
  \<open>n = 2 ^ 53\<close>, and everything from \<open>2 ^ 1024\<close> on becomes infinity.
\<close>

definition round_magnitude :: "int \<Rightarrow> int \<Rightarrow> int" where
  "round_magnitude p q =
     (let t = max (floor_log2 p q - 52) (- 1074);
          n = (if 0 \<le> t then round_half_even p (q * 2 ^ nat t)
               else round_half_even (p * 2 ^ nat (- t)) q)
      in min ((t + 1074) * 2 ^ 52 + n) inf_magnitude)"

text \<open>The double nearest to \<open>\<plusminus> (p / q) * 2 ^ e\<close>.\<close>

definition round_scaled :: "bool \<Rightarrow> int \<Rightarrow> int \<Rightarrow> int \<Rightarrow> double" where
  "round_scaled s p q e =
     make_double s (if 0 \<le> e then round_magnitude (p * 2 ^ nat e) q
                    else round_magnitude p (q * 2 ^ nat (- e)))"

text \<open>Conversion of an integer to double (\<^verbatim>\<open>static_cast<double>\<close> and the implicit conversions).\<close>

definition double_of_int :: "int \<Rightarrow> double" where
  "double_of_int i = (if i = 0 then 0 else round_scaled (i < 0) \<bar>i\<bar> 1 0)"

text \<open>A decimal literal \<open>p / q\<close> of the program text, as the compiler converts it.\<close>

definition double_of_ratio :: "int \<Rightarrow> int \<Rightarrow> double" where
  "double_of_ratio p q = (if p = 0 then 0 else round_scaled False p q 0)"

definition fneg :: "double \<Rightarrow> double" where
  "fneg x = make_double (\<not> sign_bit x) (magnitude x)"

definition fadd :: "double \<Rightarrow> double \<Rightarrow> double" where
  "fadd x y =
     (if is_nan x \<or> is_nan y then default_nan
      else if is_inf x then (if is_inf y \<and> sign_bit x \<noteq> sign_bit y then default_nan else x)
      else if is_inf y then y
      else
        let e = min (exponent (magnitude x)) (exponent (magnitude y));
            a = (if sign_bit x then - 1 else 1) * significand (magnitude x)
                  * 2 ^ nat (exponent (magnitude x) - e);
            b = (if sign_bit y then - 1 else 1) * significand (magnitude y)
                  * 2 ^ nat (exponent (magnitude y) - e);
            c = a + b
        in if c = 0 then make_double (sign_bit x \<and> sign_bit y) 0
           else round_scaled (c < 0) \<bar>c\<bar> 1 e)"

definition fsub :: "double \<Rightarrow> double \<Rightarrow> double" where
  "fsub x y = fadd x (fneg y)"

definition fmul :: "double \<Rightarrow> double \<Rightarrow> double" where
  "fmul x y =
     (if is_nan x \<or> is_nan y then default_nan
      else if (is_inf x \<and> is_zero y) \<or> (is_zero x \<and> is_inf y) then default_nan
      else if is_inf x \<or> is_inf y then make_double (sign_bit x \<noteq> sign_bit y) inf_magnitude
      else if is_zero x \<or> is_zero y then make_double (sign_bit x \<noteq> sign_bit y) 0
      else round_scaled (sign_bit x \<noteq> sign_bit y)
             (significand (magnitude x) * significand (magnitude y)) 1
             (exponent (magnitude x) + exponent (magnitude y)))"

definition fdiv :: "double \<Rightarrow> double \<Rightarrow> double" where
  "fdiv x y =
     (if is_nan x \<or> is_nan y then default_nan
      else if is_inf x then
        (if is_inf y then default_nan else make_double (sign_bit x \<noteq> sign_bit y) inf_magnitude)
      else if is_inf y then make_double (sign_bit x \<noteq> sign_bit y) 0
      else if is_zero y then
        (if is_zero x then default_nan else make_double (sign_bit x \<noteq> sign_bit y) inf_magnitude)
      else if is_zero x then make_double (sign_bit x \<noteq> sign_bit y) 0
      else round_scaled (sign_bit x \<noteq> sign_bit y)
             (significand (magnitude x)) (significand (magnitude y))
             (exponent (magnitude x) - exponent (magnitude y)))"

text \<open>
  Integer square root, one bit at a time from bit \<open>k - 1\<close> down: the result \<open>r\<close> is the
  greatest number with \<open>r * r \<le> n\<close>, for \<open>n < 4 ^ k\<close>.
\<close>

primrec isqrt_from :: "nat \<Rightarrow> int \<Rightarrow> int \<Rightarrow> int" where
  "isqrt_from 0 n r = r"
| "isqrt_from (Suc k) n r =
     isqrt_from k n (if (r + 2 ^ k) * (r + 2 ^ k) \<le> n then r + 2 ^ k else r)"

definition isqrt :: "int \<Rightarrow> int" where
  "isqrt n = isqrt_from (bitlen n) n 0"

text \<open>
  \<^verbatim>\<open>std::sqrt\<close>, correctly rounded. The radicand is written \<open>M * 4 ^ j\<close> with \<open>M\<close> an
  integer of more than 108 bits; its integer square root \<open>r\<close> has more than 53 bits, and
  when \<open>M\<close> is not a square the root lies strictly between \<open>r\<close> and \<open>r + 1\<close>, which rounds
  as \<open>r + 1/2\<close> does.
\<close>

definition fsqrt :: "double \<Rightarrow> double" where
  "fsqrt x =
     (if is_nan x then default_nan
      else if is_zero x then x
      else if sign_bit x then default_nan
      else if is_inf x then x
      else
        let j = (exponent (magnitude x) - 108) div 2;
            M = significand (magnitude x) * 2 ^ nat (exponent (magnitude x) - 2 * j);
            r = isqrt M
        in if r * r = M then round_scaled False r 1 j
           else round_scaled False (2 * r + 1) 2 j)"

definition fless :: "double \<Rightarrow> double \<Rightarrow> bool" where
  "fless x y =
     (if is_nan x \<or> is_nan y then False
      else (if sign_bit x then - magnitude x else magnitude x)
             < (if sign_bit y then - magnitude y else magnitude y))"

section \<open>Text output of numbers\<close>

text \<open>
  The stream inserters of the standard library in the classic locale: an integer is
  written in decimal, a double in fixed notation with the stream's precision, rounded
  to nearest (ties to even) from its exact value.
\<close>

definition digit_char :: "int \<Rightarrow> char" where
  "digit_char d = ''0123456789'' ! nat d"

text \<open>The decimal digits of a number \<open>n \<ge> 0\<close>, most significant first.\<close>

function dec_nat :: "int \<Rightarrow> string" where
  "dec_nat n = (if n < 10 then [digit_char n] else dec_nat (n div 10) @ [digit_char (n mod 10)])"
  by pat_completeness auto
termination
  by (relation "measure nat") auto

declare dec_nat.simps [simp del]

definition show_long_long :: "long_long \<Rightarrow> string" where
  "show_long_long i = (if sint i < 0 then CHR ''-'' # dec_nat (- sint i) else dec_nat (sint i))"

definition show_fixed :: "nat \<Rightarrow> double \<Rightarrow> string" where
  "show_fixed prec x =
     (if sign_bit x then ''-'' else '''') @
     (if is_nan x then ''nan''
      else if is_inf x then ''inf''
      else
        let e = exponent (magnitude x);
            n = (if 0 \<le> e then significand (magnitude x) * 2 ^ nat e * 10 ^ prec
                 else round_half_even (significand (magnitude x) * 10 ^ prec) (2 ^ nat (- e)));
            ds = dec_nat n;
            ds = replicate (Suc prec - length ds) CHR ''0'' @ ds
        in take (length ds - prec) ds @ (if prec = 0 then '''' else ''.'' @ drop (length ds - prec) ds))"

section \<open>Measurement::Value (measurement.h)\<close>

text \<open>
  The struct holds a union of a \<^verbatim>\<open>double\<close> and a \<^verbatim>\<open>long long\<close> and the tag
  \<^verbatim>\<open>is_floating_point\<close>. Both members of the union occupy the same eight bytes: field
  \<open>v\<close> is those bytes, member \<^verbatim>\<open>v.integer\<close> reads them as a two's complement number and
  member \<^verbatim>\<open>v.floating_point\<close> as a binary64 number.
\<close>

record Value =
  v :: "64 word"
  is_floating_point :: bool

text \<open>The constructor \<^verbatim>\<open>Value(bool is_floating)\<close>: the union is zero-initialised.\<close>

definition Value_ctor :: "bool \<Rightarrow> Value" where
  "Value_ctor is_floating = \<lparr>v = 0, is_floating_point = is_floating\<rparr>"

text \<open>
  \<^verbatim>\<open>operator<<\<close> on a stream whose content so far is \<open>os\<close>: fixed notation with
  precision 4 for the floating member, the decimal number for the integer member
  (the precision set for it has no effect on an integer).
\<close>

definition operator_output :: "string \<Rightarrow> Value \<Rightarrow> string" where
  "operator_output os a =
     os @ (if is_floating_point a then show_fixed 4 (v a) else show_long_long (v a))"

definition to_string :: "Value \<Rightarrow> string" where
  "to_string this = operator_output [] this"

text \<open>
  \<^verbatim>\<open>operator+\<close>, \<^verbatim>\<open>operator-\<close> and \<^verbatim>\<open>operator*\<close> take \<open>b\<close> by value, update the member
  of \<open>b\<close> that the tag of \<open>this\<close> selects, with \<open>this\<close> as the right operand, and return
  \<open>b\<close>. The spec's \<open>add(a, b)\<close> is \<open>operator_plus a b\<close>, \<open>subtract(a, b)\<close> is
  \<open>operator_minus a b\<close>, \<open>multiply(a, b)\<close> is \<open>operator_times a b\<close>.
\<close>

definition operator_plus :: "Value \<Rightarrow> Value \<Rightarrow> Value" where
  "operator_plus this b =
     (if is_floating_point this then b\<lparr>v := fadd (v b) (v this)\<rparr>
      else b\<lparr>v := v b + v this\<rparr>)"

definition operator_minus :: "Value \<Rightarrow> Value \<Rightarrow> Value" where
  "operator_minus this b =
     (if is_floating_point this then b\<lparr>v := fsub (v b) (v this)\<rparr>
      else b\<lparr>v := v b - v this\<rparr>)"

definition operator_times :: "Value \<Rightarrow> Value \<Rightarrow> Value" where
  "operator_times this b =
     (if is_floating_point this then b\<lparr>v := fmul (v b) (v this)\<rparr>
      else b\<lparr>v := v b * v this\<rparr>)"

text \<open>
  \<^verbatim>\<open>operator/(int b)\<close>, the spec's \<open>divide_by_scalar\<close>. The integer division of C++
  truncates towards zero; it is undefined for a zero divisor and when the quotient
  is not representable.
\<close>

datatype fault = Division_by_zero | Division_overflow

definition quot :: "int \<Rightarrow> int \<Rightarrow> int" where
  "quot a b = (if (a < 0) = (b < 0) then \<bar>a\<bar> div \<bar>b\<bar> else - (\<bar>a\<bar> div \<bar>b\<bar>))"

definition operator_div :: "Value \<Rightarrow> 32 word \<Rightarrow> fault + Value" where
  "operator_div this b =
     (if is_floating_point this then
        Inr ((Value_ctor (is_floating_point this))\<lparr>v := fdiv (v this) (double_of_int (sint b))\<rparr>)
      else if sint b = 0 then Inl Division_by_zero
      else if sint (v this) = - (2 ^ 63) \<and> sint b = - 1 then Inl Division_overflow
      else
        Inr ((Value_ctor (is_floating_point this))\<lparr>v := word_of_int (quot (sint (v this)) (sint b))\<rparr>))"

text \<open>
  \<^verbatim>\<open>operator-=\<close>, the spec's \<open>subtract_in_place\<close>: the new content of \<open>*this\<close>. The
  receiver and the argument are objects in memory and may be the same object, so the
  call itself is a function on a store of Values: it reads the objects at \<open>this\<close> and at
  \<open>b\<close>, writes the object at \<open>this\<close>, and returns the reference \<open>this\<close>.
\<close>

definition operator_minus_assign :: "Value \<Rightarrow> Value \<Rightarrow> Value" where
  "operator_minus_assign this b =
     (if is_floating_point this then this\<lparr>v := fsub (v this) (v b)\<rparr>
      else this\<lparr>v := v this - v b\<rparr>)"

type_synonym addr = nat

definition operator_minus_assign_at :: "(addr \<Rightarrow> Value) \<Rightarrow> addr \<Rightarrow> addr \<Rightarrow> (addr \<Rightarrow> Value) \<times> addr" where
  "operator_minus_assign_at h this b = (h(this := operator_minus_assign (h this) (h b)), this)"

definition operator_less :: "Value \<Rightarrow> Value \<Rightarrow> bool" where
  "operator_less this b =
     (if is_floating_point this then fless (v this) (v b) else sint (v this) < sint (v b))"

text \<open>
  \<^verbatim>\<open>relative_standard_deviation\<close>: the tag of \<open>variance\<close> selects the branch; in the
  integer branch \<open>variance\<close> is cast and \<open>mean\<close> is converted by the division.
\<close>

definition relative_standard_deviation :: "Value \<Rightarrow> Value \<Rightarrow> double" where
  "relative_standard_deviation variance mean =
     (if is_floating_point variance then
        fdiv (fmul (double_of_int 100) (fsqrt (v variance))) (v mean)
      else
        fdiv (fmul (double_of_int 100) (fsqrt (double_of_int (sint (v variance)))))
             (double_of_int (sint (v mean))))"

section \<open>Measurement (measurement.h)\<close>

record Measurement =
  m_unit :: string
  m_raw_data :: "string list"
  m_value :: Value

text \<open>
  The two constructors, for a floating and for an integral argument (cast to
  \<^verbatim>\<open>double\<close> and to \<^verbatim>\<open>long long\<close>; the argument here is the result of the cast).
\<close>

definition Measurement_floating :: "double \<Rightarrow> string \<Rightarrow> string list \<Rightarrow> Measurement" where
  "Measurement_floating x u raw =
     (let val = (Value_ctor True)\<lparr>v := x\<rparr>
      in \<lparr>m_unit = u, m_raw_data = (if raw = [] then [to_string val] else raw), m_value = val\<rparr>)"

definition Measurement_integer :: "long_long \<Rightarrow> string \<Rightarrow> string list \<Rightarrow> Measurement" where
  "Measurement_integer x u raw =
     (let val = (Value_ctor False)\<lparr>v := x\<rparr>
      in \<lparr>m_unit = u, m_raw_data = (if raw = [] then [to_string val] else raw), m_value = val\<rparr>)"

definition Measurement_less :: "Measurement \<Rightarrow> Measurement \<Rightarrow> bool" where
  "Measurement_less this b = operator_less (m_value this) (m_value b)"

definition Measurement_output :: "string \<Rightarrow> Measurement \<Rightarrow> string" where
  "Measurement_output os m = operator_output os (m_value m) @ '' '' @ m_unit m"

section \<open>PMUCounter (pmu_counter.cpp)\<close>

text \<open>
  Modelled from the spec: the counter handle (class \<^verbatim>\<open>PMU\<close>, whose header is not among
  the sources). The spec gives it \<open>reset()\<close>, which returns nothing and cannot fail
  observably, and \<open>get_value()\<close>, which returns the integer accumulated since the last
  reset or fails with a runtime error when the counter cannot be read. \<open>count\<close> is the
  number of events counted since the last reset, \<open>readable\<close> says whether the counter
  can be read on this host, and \<open>advance d\<close> is the hardware counting \<open>d\<close> more events.
\<close>

datatype exn = Runtime_error

record PMU =
  count :: long_long
  readable :: bool

definition get_value :: "PMU \<Rightarrow> exn + long_long" where
  "get_value h = (if readable h then Inr (count h) else Inl Runtime_error)"

definition reset :: "PMU \<Rightarrow> PMU" where
  "reset h = h\<lparr>count := 0\<rparr>"

definition advance :: "long_long \<Rightarrow> PMU \<Rightarrow> PMU" where
  "advance d h = h\<lparr>count := count h + d\<rparr>"

text \<open>The members of \<^verbatim>\<open>PMUCounter\<close> that pmu_counter.cpp uses: six handles, six accumulators.\<close>

record PMUCounter =
  pmu_cycles :: PMU
  pmu_instructions :: PMU
  pmu_cache_references :: PMU
  pmu_cache_misses :: PMU
  pmu_branch_instructions :: PMU
  pmu_branch_misses :: PMU
  cycles :: long_long
  instructions :: long_long
  cache_references :: long_long
  cache_misses :: long_long
  branch_instructions :: long_long
  branch_misses :: long_long

definition id_name :: "PMUCounter \<Rightarrow> string" where
  "id_name s = ''PMU Counter''"

definition start :: "PMUCounter \<Rightarrow> PMUCounter" where
  "start s =
     s\<lparr>pmu_cycles := reset (pmu_cycles s),
       pmu_instructions := reset (pmu_instructions s),
       pmu_cache_references := reset (pmu_cache_references s),
       pmu_cache_misses := reset (pmu_cache_misses s),
       pmu_branch_instructions := reset (pmu_branch_instructions s),
       pmu_branch_misses := reset (pmu_branch_misses s)\<rparr>"

text \<open>
  \<^verbatim>\<open>stop()\<close> is six try blocks in sequence. In a block the read comes first: when it
  throws, the assignment and the reset are skipped and the handler stores zero. An
  exception that no handler catches would leave \<open>stop\<close>: the result is a sum.
\<close>

definition and_then :: "exn + 'a \<Rightarrow> ('a \<Rightarrow> exn + 'b) \<Rightarrow> exn + 'b" where
  "and_then r f = (case r of Inl e \<Rightarrow> Inl e | Inr x \<Rightarrow> f x)"

definition stop_cycles :: "PMUCounter \<Rightarrow> exn + PMUCounter" where
  "stop_cycles s =
     (case get_value (pmu_cycles s) of
        Inr x \<Rightarrow> Inr (s\<lparr>cycles := x, pmu_cycles := reset (pmu_cycles s)\<rparr>)
      | Inl Runtime_error \<Rightarrow> Inr (s\<lparr>cycles := 0\<rparr>))"

definition stop_instructions :: "PMUCounter \<Rightarrow> exn + PMUCounter" where
  "stop_instructions s =
     (case get_value (pmu_instructions s) of
        Inr x \<Rightarrow> Inr (s\<lparr>instructions := x, pmu_instructions := reset (pmu_instructions s)\<rparr>)
      | Inl Runtime_error \<Rightarrow> Inr (s\<lparr>instructions := 0\<rparr>))"

definition stop_cache_references :: "PMUCounter \<Rightarrow> exn + PMUCounter" where
  "stop_cache_references s =
     (case get_value (pmu_cache_references s) of
        Inr x \<Rightarrow> Inr (s\<lparr>cache_references := x, pmu_cache_references := reset (pmu_cache_references s)\<rparr>)
      | Inl Runtime_error \<Rightarrow> Inr (s\<lparr>cache_references := 0\<rparr>))"

definition stop_cache_misses :: "PMUCounter \<Rightarrow> exn + PMUCounter" where
  "stop_cache_misses s =
     (case get_value (pmu_cache_misses s) of
        Inr x \<Rightarrow> Inr (s\<lparr>cache_misses := x, pmu_cache_misses := reset (pmu_cache_misses s)\<rparr>)
      | Inl Runtime_error \<Rightarrow> Inr (s\<lparr>cache_misses := 0\<rparr>))"

definition stop_branch_instructions :: "PMUCounter \<Rightarrow> exn + PMUCounter" where
  "stop_branch_instructions s =
     (case get_value (pmu_branch_instructions s) of
        Inr x \<Rightarrow> Inr (s\<lparr>branch_instructions := x, pmu_branch_instructions := reset (pmu_branch_instructions s)\<rparr>)
      | Inl Runtime_error \<Rightarrow> Inr (s\<lparr>branch_instructions := 0\<rparr>))"

definition stop_branch_misses :: "PMUCounter \<Rightarrow> exn + PMUCounter" where
  "stop_branch_misses s =
     (case get_value (pmu_branch_misses s) of
        Inr x \<Rightarrow> Inr (s\<lparr>branch_misses := x, pmu_branch_misses := reset (pmu_branch_misses s)\<rparr>)
      | Inl Runtime_error \<Rightarrow> Inr (s\<lparr>branch_misses := 0\<rparr>))"

definition stop :: "PMUCounter \<Rightarrow> exn + PMUCounter" where
  "stop s =
     and_then (stop_cycles s) (\<lambda>s.
     and_then (stop_instructions s) (\<lambda>s.
     and_then (stop_cache_references s) (\<lambda>s.
     and_then (stop_cache_misses s) (\<lambda>s.
     and_then (stop_branch_instructions s) stop_branch_misses))))"

text \<open>
  \<^verbatim>\<open>measurements()\<close> builds a \<^verbatim>\<open>std::map\<close> from four pairs. In the two ratios the
  numerator is cast to \<^verbatim>\<open>double\<close> and the denominator converted by the division.
\<close>

definition measurements :: "PMUCounter \<Rightarrow> (string \<rightharpoonup> Measurement)" where
  "measurements s =
     map_of
       [(''CPU cycles'', Measurement_integer (cycles s) ''cycles'' []),
        (''CPU instructions'', Measurement_integer (instructions s) ''instructions'' []),
        (''Cache miss ratio'',
           Measurement_floating
             (fdiv (double_of_int (sint (cache_misses s))) (double_of_int (sint (cache_references s))))
             '''' []),
        (''Branch miss ratio'',
           Measurement_floating
             (fdiv (double_of_int (sint (branch_misses s))) (double_of_int (sint (branch_instructions s))))
             '''' [])]"

section \<open>Scenarios and the reading of a decimal number\<close>

text \<open>
  Reading a decimal integer back, following the spec's words for the round trip of
  \<open>to_string\<close> ("parsed back as an integer"): an optional minus sign, then one or more
  decimal digits and nothing else; the result is the number they denote.
\<close>

definition digit_value :: "char \<Rightarrow> int option" where
  "digit_value c =
     map_of [(CHR ''0'', 0), (CHR ''1'', 1), (CHR ''2'', 2), (CHR ''3'', 3), (CHR ''4'', 4),
             (CHR ''5'', 5), (CHR ''6'', 6), (CHR ''7'', 7), (CHR ''8'', 8), (CHR ''9'', 9)] c"

fun parse_digits :: "int \<Rightarrow> string \<Rightarrow> int option" where
  "parse_digits acc [] = Some acc"
| "parse_digits acc (c # cs) =
     (case digit_value c of None \<Rightarrow> None | Some d \<Rightarrow> parse_digits (10 * acc + d) cs)"

definition parse_integer :: "string \<Rightarrow> int option" where
  "parse_integer s =
     (case s of
        [] \<Rightarrow> None
      | c # cs \<Rightarrow>
          if c = CHR ''-'' then (if cs = [] then None else map_option uminus (parse_digits 0 cs))
          else parse_digits 0 s)"

text \<open>
  A stub instrument for the scenarios of the spec: cycles, instructions, cache misses,
  branch instructions and branch misses can be read and have counted 1000, 500, 100,
  40 and 2 events; the cache-references counter cannot be read (its handle holds 7).
  The six accumulators hold 9, left from an earlier interval.
\<close>

definition stub :: PMUCounter where
  "stub =
     \<lparr>pmu_cycles = \<lparr>count = 1000, readable = True\<rparr>,
      pmu_instructions = \<lparr>count = 500, readable = True\<rparr>,
      pmu_cache_references = \<lparr>count = 7, readable = False\<rparr>,
      pmu_cache_misses = \<lparr>count = 100, readable = True\<rparr>,
      pmu_branch_instructions = \<lparr>count = 40, readable = True\<rparr>,
      pmu_branch_misses = \<lparr>count = 2, readable = True\<rparr>,
      cycles = 9, instructions = 9, cache_references = 9,
      cache_misses = 9, branch_instructions = 9, branch_misses = 9\<rparr>"

text \<open>The state that \<open>stop\<close> leaves the stub in.\<close>

definition stub_stopped :: PMUCounter where
  "stub_stopped =
     \<lparr>pmu_cycles = \<lparr>count = 0, readable = True\<rparr>,
      pmu_instructions = \<lparr>count = 0, readable = True\<rparr>,
      pmu_cache_references = \<lparr>count = 7, readable = False\<rparr>,
      pmu_cache_misses = \<lparr>count = 0, readable = True\<rparr>,
      pmu_branch_instructions = \<lparr>count = 0, readable = True\<rparr>,
      pmu_branch_misses = \<lparr>count = 0, readable = True\<rparr>,
      cycles = 1000, instructions = 500, cache_references = 0,
      cache_misses = 100, branch_instructions = 40, branch_misses = 2\<rparr>"

text \<open>A store for the scenario \<open>a -= a\<close>: every address holds the integer-tagged Value 10.\<close>

definition tens :: "addr \<Rightarrow> Value" where
  "tens p = \<lparr>v = 10, is_floating_point = False\<rparr>"

text \<open>
  Modelled from the spec: the workload between \<open>start()\<close> and \<open>stop()\<close>, during which
  the six hardware counters count \<open>d1\<close>, ..., \<open>d6\<close> events.
\<close>

definition workload ::
  "long_long \<Rightarrow> long_long \<Rightarrow> long_long \<Rightarrow> long_long \<Rightarrow> long_long \<Rightarrow> long_long \<Rightarrow>
   PMUCounter \<Rightarrow> PMUCounter" where
  "workload d1 d2 d3 d4 d5 d6 s =
     s\<lparr>pmu_cycles := advance d1 (pmu_cycles s),
       pmu_instructions := advance d2 (pmu_instructions s),
       pmu_cache_references := advance d3 (pmu_cache_references s),
       pmu_cache_misses := advance d4 (pmu_cache_misses s),
       pmu_branch_instructions := advance d5 (pmu_branch_instructions s),
       pmu_branch_misses := advance d6 (pmu_branch_misses s)\<rparr>"

section \<open>Properties of the number model\<close>

lemma magnitude_bounds: "0 \<le> magnitude x" "magnitude x < 2 ^ 63"
  by (simp_all add: magnitude_def)

lemma magnitude_make_double:
  assumes "0 \<le> m" "m < 2 ^ 63"
  shows "magnitude (make_double s m) = m"
  using assms by (simp add: magnitude_def make_double_def uint_word_of_int take_bit_eq_mod)

lemma sign_bit_make_double:
  assumes "0 \<le> m" "m < 2 ^ 63"
  shows "sign_bit (make_double s m) = s"
  using assms by (simp add: sign_bit_def make_double_def uint_word_of_int take_bit_eq_mod)

lemma bitlen_pos: "0 < n \<Longrightarrow> 0 < bitlen n"
  by (subst bitlen.simps) simp

lemma bitlen_bounds: "0 < n \<Longrightarrow> 2 ^ (bitlen n - 1) \<le> n \<and> n < 2 ^ bitlen n"
proof (induction n rule: bitlen.induct)
  case (1 n)
  show ?case
  proof (cases "n = 1")
    case True
    have "bitlen 1 = 1" by (simp add: bitlen.simps)
    with True show ?thesis by simp
  next
    case False
    with "1.prems" have h: "0 < n div 2" "\<not> n \<le> 0" by auto
    from "1.IH" [OF h(2) h(1)] have ih: "2 ^ (bitlen (n div 2) - 1) \<le> n div 2" "n div 2 < 2 ^ bitlen (n div 2)"
      by auto
    have bl: "bitlen n = Suc (bitlen (n div 2))"
      using h(2) by (subst bitlen.simps) simp
    have pos: "0 < bitlen (n div 2)" using h(1) by (rule bitlen_pos)
    then obtain k where k: "bitlen (n div 2) = Suc k" by (cases "bitlen (n div 2)") auto
    from ih k have "2 * 2 ^ k \<le> 2 * (n div 2)" by simp
    also have "\<dots> \<le> n" by simp
    finally have lo: "2 ^ (bitlen n - 1) \<le> n" using bl k by simp
    from ih(2) have "n div 2 + 1 \<le> 2 ^ bitlen (n div 2)" by simp
    then have "2 * (n div 2) + 2 \<le> 2 * 2 ^ bitlen (n div 2)" by simp
    moreover have "n \<le> 2 * (n div 2) + 1" by presburger
    ultimately have hi: "n < 2 ^ bitlen n" using bl by simp
    from lo hi show ?thesis ..
  qed
qed

lemma round_half_even_bounds:
  assumes "0 < b"
  shows "a div b \<le> round_half_even a b" "round_half_even a b \<le> a div b + 1"
  by (simp_all add: round_half_even_def Let_def)

lemma div_lower:
  fixes a c p :: int
  assumes "0 < c" "a * c \<le> p"
  shows "a \<le> p div c"
proof -
  have "(a * c) div c \<le> p div c" using assms(2) assms(1) by (rule zdiv_mono1)
  then show ?thesis using assms(1) by simp
qed

lemma div_upper:
  fixes a c p :: int
  assumes "0 < c" "p < a * c"
  shows "p div c < a"
proof (rule ccontr)
  assume "\<not> p div c < a"
  then have "a \<le> p div c" by simp
  then have "a * c \<le> (p div c) * c" using assms(1) by (simp add: mult_right_mono)
  also have "\<dots> \<le> p" using assms(1) by (simp add: minus_mod_eq_div_mult [symmetric])
  finally show False using assms(2) by simp
qed

lemma round_half_even_1: "round_half_even a 1 = a"
  by (simp add: round_half_even_def)

lemma floor_log2_int:
  assumes "0 < p"
  shows "floor_log2 p 1 = int (bitlen p) - 1"
proof -
  have b1: "bitlen 1 = 1" by (simp add: bitlen.simps)
  have pos: "0 < bitlen p" using assms by (rule bitlen_pos)
  have "2 ^ (bitlen p - 1) \<le> p" using bitlen_bounds [OF assms] by simp
  moreover have "nat (int (bitlen p) - 1) = bitlen p - 1" by simp
  ultimately show ?thesis using pos by (simp add: floor_log2_def b1 Let_def)
qed

lemma round_magnitude_int:
  assumes "0 < p" "p \<le> 2 ^ 63"
  shows "1023 * 2 ^ 52 \<le> round_magnitude p 1" "round_magnitude p 1 < inf_magnitude"
proof -
  define l where "l = bitlen p - 1"
  have pos: "0 < bitlen p" using assms(1) by (rule bitlen_pos)
  have lo: "2 ^ l \<le> p" and hi: "p < 2 ^ Suc l"
    using bitlen_bounds [OF assms(1)] pos by (simp_all add: l_def)
  have h63: "(2::int) ^ l \<le> 2 ^ 63" using lo assms(2) by simp
  have l63: "l \<le> 63"
  proof (rule power_le_imp_le_exp)
    show "(1::int) < 2" by simp
    show "(2::int) ^ l \<le> 2 ^ 63" by (rule h63)
  qed
  define t where "t = int l - 52"
  define n where "n = (if 0 \<le> t then round_half_even p (1 * 2 ^ nat t)
                       else round_half_even (p * 2 ^ nat (- t)) 1)"
  have fl: "floor_log2 p 1 = int l" using floor_log2_int [OF assms(1)] pos by (simp add: l_def)
  have rm: "round_magnitude p 1 = min ((t + 1074) * 2 ^ 52 + n) inf_magnitude"
    by (simp add: round_magnitude_def fl Let_def t_def n_def)
  have n: "2 ^ 52 \<le> n \<and> n \<le> 2 ^ 53"
  proof (cases "0 \<le> t")
    case True
    then have l52: "52 \<le> l" by (simp add: t_def)
    define c :: int where "c = 2 ^ (l - 52)"
    have c: "0 < c" by (simp add: c_def)
    have nt: "nat t = l - 52" using True by (simp add: t_def)
    have "(2::int) ^ l = 2 ^ (52 + (l - 52))" using l52 by simp
    then have pl: "(2::int) ^ l = 2 ^ 52 * c" by (simp only: power_add c_def)
    have "(2::int) ^ Suc l = 2 ^ (53 + (l - 52))" using l52 by simp
    then have ph: "(2::int) ^ Suc l = 2 ^ 53 * c" by (simp only: power_add c_def)
    have d1: "2 ^ 52 \<le> p div c" using c lo pl by (intro div_lower) simp_all
    have d2: "p div c < 2 ^ 53" using c hi ph by (intro div_upper) simp_all
    have "n = round_half_even p c" using True by (simp add: n_def nt c_def)
    with round_half_even_bounds [OF c, of p] d1 d2 show ?thesis by simp
  next
    case False
    then have l52: "l < 52" by (simp add: t_def)
    define c :: int where "c = 2 ^ (52 - l)"
    have c: "0 < c" by (simp add: c_def)
    have nt: "nat (- t) = 52 - l" using False by (simp add: t_def)
    have "(2::int) ^ 52 = 2 ^ (l + (52 - l))" using l52 by simp
    then have pl: "(2::int) ^ 52 = 2 ^ l * c" by (simp only: power_add c_def)
    have "(2::int) ^ 53 = 2 ^ (Suc l + (52 - l))" using l52 by simp
    then have ph: "(2::int) ^ 53 = 2 ^ Suc l * c" by (simp only: power_add c_def)
    have nn: "n = p * c" using False by (simp add: n_def nt c_def round_half_even_1)
    have "2 ^ l * c \<le> p * c" using lo c by (simp add: mult_right_mono)
    moreover have "p * c < 2 ^ Suc l * c" using hi c by (simp add: mult_strict_right_mono)
    ultimately show ?thesis using nn pl ph by simp
  qed
  have t: "- 52 \<le> t" "t \<le> 11" using l63 by (simp_all add: t_def)
  have a: "1022 * 2 ^ 52 \<le> (t + 1074) * (2 ^ 52 :: int)" using t by simp
  have b: "(t + 1074) * (2 ^ 52 :: int) \<le> 1085 * 2 ^ 52" using t by simp
  show "1023 * 2 ^ 52 \<le> round_magnitude p 1" using a n by (simp add: rm inf_magnitude_def)
  show "round_magnitude p 1 < inf_magnitude" using b n by (simp add: rm inf_magnitude_def)
qed

lemma double_of_int_magnitude:
  assumes "i \<noteq> 0" "- (2 ^ 63) \<le> i" "i \<le> 2 ^ 63"
  shows "magnitude (double_of_int i) = round_magnitude \<bar>i\<bar> 1"
    and "sign_bit (double_of_int i) = (i < 0)"
proof -
  have p: "0 < \<bar>i\<bar>" "\<bar>i\<bar> \<le> 2 ^ 63" using assms by auto
  have b: "0 \<le> round_magnitude \<bar>i\<bar> 1" "round_magnitude \<bar>i\<bar> 1 < 2 ^ 63"
    using round_magnitude_int [OF p] by (simp_all add: inf_magnitude_def)
  have d: "double_of_int i = make_double (i < 0) (round_magnitude \<bar>i\<bar> 1)"
    using assms(1) by (simp add: double_of_int_def round_scaled_def)
  show "magnitude (double_of_int i) = round_magnitude \<bar>i\<bar> 1"
    unfolding d using b by (rule magnitude_make_double)
  show "sign_bit (double_of_int i) = (i < 0)"
    unfolding d using b by (rule sign_bit_make_double)
qed

lemma double_of_int_finite_nonzero:
  assumes "i \<noteq> 0" "- (2 ^ 63) \<le> i" "i \<le> 2 ^ 63"
  shows "\<not> is_nan (double_of_int i)" "\<not> is_inf (double_of_int i)" "\<not> is_zero (double_of_int i)"
proof -
  have p: "0 < \<bar>i\<bar>" "\<bar>i\<bar> \<le> 2 ^ 63" using assms by auto
  note m = double_of_int_magnitude(1) [OF assms]
  note r = round_magnitude_int [OF p]
  show "\<not> is_nan (double_of_int i)" using r by (simp add: is_nan_def m)
  show "\<not> is_inf (double_of_int i)" using r by (simp add: is_inf_def m)
  show "\<not> is_zero (double_of_int i)" using r by (simp add: is_zero_def m)
qed

lemma double_of_int_0: "double_of_int 0 = 0"
  by (simp add: double_of_int_def)

lemma magnitude_0: "magnitude 0 = 0"
  by (simp add: magnitude_def)

lemma sign_bit_0: "\<not> sign_bit 0"
  by (simp add: sign_bit_def)

lemma sint64_bounds: "- (2 ^ 63) \<le> sint (w :: 64 word)" "sint w < 2 ^ 63" "sint w \<le> 2 ^ 63"
  using sint_ge [of w] sint_lt [of w] by simp_all

lemma sint_eq_0_iff: "sint w = 0 \<longleftrightarrow> w = 0"
  by (rule signed_eq_0_iff)

lemma operator_plus_tag: "is_floating_point (operator_plus a b) = is_floating_point b"
  by (simp add: operator_plus_def)

lemma operator_minus_tag: "is_floating_point (operator_minus a b) = is_floating_point b"
  by (simp add: operator_minus_def)

section \<open>Value arithmetic\<close>

text \<open>
  Claim C1: for Values \<open>a\<close> and \<open>b\<close> of the same tag, \<open>subtract(add(a, b), b)\<close> equals \<open>a\<close>,
  and both operations return a Value of that tag. The tag is kept, but
  \<^verbatim>\<open>operator-\<close> subtracts its receiver from its argument, although its comment
  documents "the stored value - b": for integer-tagged \<open>a\<close> and \<open>b\<close> the result of
  \<open>subtract(add(a, b), b)\<close> is \<open>- a\<close>, which differs from \<open>a\<close> for \<open>a = 1\<close>.
\<close>

theorem subtract_add_integer:
  assumes "\<not> is_floating_point a" "\<not> is_floating_point b"
  shows "operator_minus (operator_plus a b) b = a\<lparr>v := - v a\<rparr>
         \<and> \<not> is_floating_point (operator_plus a b)
         \<and> \<not> is_floating_point (operator_minus (operator_plus a b) b)"
  using assms by (simp add: operator_plus_def operator_minus_def)

theorem subtract_add_integer_witness:
  "operator_minus (operator_plus \<lparr>v = 1, is_floating_point = False\<rparr> \<lparr>v = 0, is_floating_point = False\<rparr>)
      \<lparr>v = 0, is_floating_point = False\<rparr> = \<lparr>v = - 1, is_floating_point = False\<rparr>
   \<and> \<lparr>v = - 1, is_floating_point = False\<rparr> \<noteq> \<lparr>v = (1 :: 64 word), is_floating_point = False\<rparr>
   \<and> sint (- 1 :: 64 word) = - 1"
  using subtract_add_integer [of "\<lparr>v = 1, is_floating_point = False\<rparr>" "\<lparr>v = 0, is_floating_point = False\<rparr>"]
  by simp

text \<open>
  Claim C10, as amended: \<^verbatim>\<open>operator-=\<close> with receiver \<open>a\<close> (the object at \<open>this\<close>) and
  argument \<open>b\<close> changes only the payload of \<open>a\<close>, by subtracting the member of \<open>b\<close> that
  the tag of \<open>a\<close> selects: the tag of \<open>a\<close> is unchanged, every object other than \<open>a\<close> is
  unchanged, and so is \<open>b\<close> when it is an object other than \<open>a\<close>. When \<open>b\<close> is \<open>a\<close> itself
  (\<open>a -= a\<close>) the one object is changed: an integer payload becomes zero. The claim as
  stated has \<open>b\<close> never modified.
\<close>

theorem subtract_in_place_frame:
  assumes "operator_minus_assign_at h this b = (h', r)"
  shows "r = this
         \<and> is_floating_point (h' this) = is_floating_point (h this)
         \<and> v (h' this) = (if is_floating_point (h this) then fsub (v (h this)) (v (h b))
                           else v (h this) - v (h b))
         \<and> (\<forall>p. p \<noteq> this \<longrightarrow> h' p = h p)
         \<and> (b \<noteq> this \<longrightarrow> h' b = h b)
         \<and> (b = this \<longrightarrow> is_floating_point (h' b) = is_floating_point (h b)
               \<and> v (h' b) = (if is_floating_point (h b) then fsub (v (h b)) (v (h b)) else 0))"
  using assms by (auto simp: operator_minus_assign_at_def operator_minus_assign_def)

theorem subtract_in_place_frame_witness:
  "operator_minus_assign_at
     ((\<lambda>p. Value_ctor False)(0 := \<lparr>v = 10, is_floating_point = False\<rparr>, 1 := \<lparr>v = 3, is_floating_point = True\<rparr>)) 0 1
     = ((\<lambda>p. Value_ctor False)(0 := \<lparr>v = 7, is_floating_point = False\<rparr>, 1 := \<lparr>v = 3, is_floating_point = True\<rparr>), 0)
   \<and> is_floating_point
        (fst (operator_minus_assign_at
           ((\<lambda>p. Value_ctor False)(0 := \<lparr>v = 10, is_floating_point = False\<rparr>, 1 := \<lparr>v = 3, is_floating_point = True\<rparr>)) 0 1) 0)
       = False
   \<and> fst (operator_minus_assign_at
           ((\<lambda>p. Value_ctor False)(0 := \<lparr>v = 10, is_floating_point = False\<rparr>, 1 := \<lparr>v = 3, is_floating_point = True\<rparr>)) 0 1) 1
       = \<lparr>v = 3, is_floating_point = True\<rparr>"
proof -
  let ?h = "(\<lambda>p. Value_ctor False)(0 := \<lparr>v = 10, is_floating_point = False\<rparr>, 1 := \<lparr>v = (3 :: 64 word), is_floating_point = True\<rparr>)"
  obtain h' r where e: "operator_minus_assign_at ?h 0 1 = (h', r)" by (cases "operator_minus_assign_at ?h 0 1")
  from subtract_in_place_frame [OF e]
  have "is_floating_point (h' 0) = False" "h' 1 = \<lparr>v = 3, is_floating_point = True\<rparr>" by simp_all
  moreover have "operator_minus_assign_at ?h 0 1 = ((\<lambda>p. Value_ctor False)(0 := \<lparr>v = 7, is_floating_point = False\<rparr>, 1 := \<lparr>v = 3, is_floating_point = True\<rparr>), 0)"
    by (auto simp: operator_minus_assign_at_def operator_minus_assign_def fun_eq_iff)
  ultimately show ?thesis using e by simp
qed

theorem subtract_in_place_alias_counterexample:
  "tens 0 = \<lparr>v = 10, is_floating_point = False\<rparr>
   \<and> fst (operator_minus_assign_at tens 0 0) 0 = \<lparr>v = 0, is_floating_point = False\<rparr>
   \<and> fst (operator_minus_assign_at tens 0 0) 0 \<noteq> tens 0"
  by (simp add: operator_minus_assign_at_def operator_minus_assign_def tens_def)

section \<open>The PMU instrument\<close>

lemma stop_result:
  "stop s = Inr
     \<lparr>pmu_cycles = (if readable (pmu_cycles s) then reset (pmu_cycles s) else pmu_cycles s),
      pmu_instructions = (if readable (pmu_instructions s) then reset (pmu_instructions s) else pmu_instructions s),
      pmu_cache_references =
        (if readable (pmu_cache_references s) then reset (pmu_cache_references s) else pmu_cache_references s),
      pmu_cache_misses = (if readable (pmu_cache_misses s) then reset (pmu_cache_misses s) else pmu_cache_misses s),
      pmu_branch_instructions =
        (if readable (pmu_branch_instructions s) then reset (pmu_branch_instructions s)
         else pmu_branch_instructions s),
      pmu_branch_misses = (if readable (pmu_branch_misses s) then reset (pmu_branch_misses s) else pmu_branch_misses s),
      cycles = (if readable (pmu_cycles s) then count (pmu_cycles s) else 0),
      instructions = (if readable (pmu_instructions s) then count (pmu_instructions s) else 0),
      cache_references = (if readable (pmu_cache_references s) then count (pmu_cache_references s) else 0),
      cache_misses = (if readable (pmu_cache_misses s) then count (pmu_cache_misses s) else 0),
      branch_instructions = (if readable (pmu_branch_instructions s) then count (pmu_branch_instructions s) else 0),
      branch_misses = (if readable (pmu_branch_misses s) then count (pmu_branch_misses s) else 0)\<rparr>"
  by (cases s)
     (simp add: stop_def and_then_def stop_cycles_def stop_instructions_def stop_cache_references_def
        stop_cache_misses_def stop_branch_instructions_def stop_branch_misses_def get_value_def)

lemma get_value_cases:
  "get_value h = Inl Runtime_error \<longleftrightarrow> \<not> readable h"
  "get_value h = Inr x \<longleftrightarrow> readable h \<and> x = count h"
  by (auto simp: get_value_def)

text \<open>
  Claim C2: in \<open>stop()\<close>, for each of the six counters independently: when the read of
  that counter raises the runtime error, its accumulator becomes zero and its handle
  is not reset; when the read returns \<open>x\<close>, the accumulator becomes \<open>x\<close> and the handle
  is reset. What happens to one counter depends on no other counter, and \<open>stop()\<close>
  returns normally in every case.
\<close>

theorem stop_isolates_failures:
  "\<exists>s'. stop s = Inr s'
     \<and> (get_value (pmu_cycles s) = Inl Runtime_error \<longrightarrow> cycles s' = 0 \<and> pmu_cycles s' = pmu_cycles s)
     \<and> (\<forall>x. get_value (pmu_cycles s) = Inr x \<longrightarrow> cycles s' = x \<and> pmu_cycles s' = reset (pmu_cycles s))
     \<and> (get_value (pmu_instructions s) = Inl Runtime_error \<longrightarrow>
          instructions s' = 0 \<and> pmu_instructions s' = pmu_instructions s)
     \<and> (\<forall>x. get_value (pmu_instructions s) = Inr x \<longrightarrow>
          instructions s' = x \<and> pmu_instructions s' = reset (pmu_instructions s))
     \<and> (get_value (pmu_cache_references s) = Inl Runtime_error \<longrightarrow>
          cache_references s' = 0 \<and> pmu_cache_references s' = pmu_cache_references s)
     \<and> (\<forall>x. get_value (pmu_cache_references s) = Inr x \<longrightarrow>
          cache_references s' = x \<and> pmu_cache_references s' = reset (pmu_cache_references s))
     \<and> (get_value (pmu_cache_misses s) = Inl Runtime_error \<longrightarrow>
          cache_misses s' = 0 \<and> pmu_cache_misses s' = pmu_cache_misses s)
     \<and> (\<forall>x. get_value (pmu_cache_misses s) = Inr x \<longrightarrow>
          cache_misses s' = x \<and> pmu_cache_misses s' = reset (pmu_cache_misses s))
     \<and> (get_value (pmu_branch_instructions s) = Inl Runtime_error \<longrightarrow>
          branch_instructions s' = 0 \<and> pmu_branch_instructions s' = pmu_branch_instructions s)
     \<and> (\<forall>x. get_value (pmu_branch_instructions s) = Inr x \<longrightarrow>
          branch_instructions s' = x \<and> pmu_branch_instructions s' = reset (pmu_branch_instructions s))
     \<and> (get_value (pmu_branch_misses s) = Inl Runtime_error \<longrightarrow>
          branch_misses s' = 0 \<and> pmu_branch_misses s' = pmu_branch_misses s)
     \<and> (\<forall>x. get_value (pmu_branch_misses s) = Inr x \<longrightarrow>
          branch_misses s' = x \<and> pmu_branch_misses s' = reset (pmu_branch_misses s))"
  by (simp add: stop_result get_value_cases)

lemma stop_stub: "stop stub = Inr stub_stopped"
  by (simp add: stop_result stub_def stub_stopped_def reset_def)

theorem stop_isolates_failures_witness:
  "stop stub = Inr stub_stopped
   \<and> get_value (pmu_cache_references stub) = Inl Runtime_error
   \<and> cache_references stub_stopped = 0
   \<and> pmu_cache_references stub_stopped = pmu_cache_references stub
   \<and> count (pmu_cache_references stub_stopped) = 7
   \<and> get_value (pmu_cycles stub) = Inr 1000
   \<and> cycles stub_stopped = 1000
   \<and> pmu_cycles stub_stopped = reset (pmu_cycles stub)
   \<and> get_value (pmu_cache_misses stub) = Inr 100
   \<and> cache_misses stub_stopped = 100
   \<and> pmu_cache_misses stub_stopped = reset (pmu_cache_misses stub)"
proof -
  have g: "get_value (pmu_cache_references stub) = Inl Runtime_error"
    "get_value (pmu_cycles stub) = Inr 1000" "get_value (pmu_cache_misses stub) = Inr 100"
    by (simp_all add: get_value_def stub_def)
  from stop_isolates_failures [of stub] obtain s' where
    s': "stop stub = Inr s'"
    and a: "get_value (pmu_cache_references stub) = Inl Runtime_error \<longrightarrow>
          cache_references s' = 0 \<and> pmu_cache_references s' = pmu_cache_references stub"
    and b: "\<forall>x. get_value (pmu_cycles stub) = Inr x \<longrightarrow> cycles s' = x \<and> pmu_cycles s' = reset (pmu_cycles stub)"
    and c: "\<forall>x. get_value (pmu_cache_misses stub) = Inr x \<longrightarrow>
          cache_misses s' = x \<and> pmu_cache_misses s' = reset (pmu_cache_misses stub)"
    by blast
  from s' stop_stub have e: "s' = stub_stopped" by simp
  have "count (pmu_cache_references stub_stopped) = 7" by (simp add: stub_stopped_def)
  with g a b c e stop_stub show ?thesis by simp
qed

lemma show_1000: "show_long_long 1000 = ''1000''"
  by code_simp

lemma show_500: "show_long_long 500 = ''500''"
  by code_simp

lemma show_pi: "show_fixed 4 (double_of_ratio 314159 100000) = ''3.1416''"
  by code_simp

lemma double_pi: "double_of_ratio 314159 100000 = 0x400921F9F01B866E"
  by code_simp

lemma div_100_0: "fdiv (double_of_int 100) (double_of_int 0) = 0x7FF0000000000000"
  by code_simp

lemma to_string_integer: "to_string \<lparr>v = i, is_floating_point = False\<rparr> = show_long_long i"
  by (simp add: to_string_def operator_output_def)

lemma to_string_floating: "to_string \<lparr>v = x, is_floating_point = True\<rparr> = show_fixed 4 x"
  by (simp add: to_string_def operator_output_def)

lemma Measurement_integer_empty:
  "Measurement_integer i u [] =
     \<lparr>m_unit = u, m_raw_data = [show_long_long i], m_value = \<lparr>v = i, is_floating_point = False\<rparr>\<rparr>"
  by (simp add: Measurement_integer_def Value_ctor_def to_string_integer)

lemma Measurement_floating_empty:
  "Measurement_floating x u [] =
     \<lparr>m_unit = u, m_raw_data = [show_fixed 4 x], m_value = \<lparr>v = x, is_floating_point = True\<rparr>\<rparr>"
  by (simp add: Measurement_floating_def Value_ctor_def to_string_floating)

text \<open>
  Claim C3: after a \<open>stop()\<close> that left the accumulators in state \<open>s\<close>, \<open>measurements()\<close>
  is a mapping with exactly the four keys "CPU cycles", "CPU instructions", "Cache
  miss ratio" and "Branch miss ratio": the first two hold the integer-tagged
  Measurements of \<open>cycles\<close> and \<open>instructions\<close> with units "cycles" and "instructions",
  the last two the floating-tagged Measurements of the quotients
  \<open>cache_misses / cache_references\<close> and \<open>branch_misses / branch_instructions\<close>, computed
  on doubles, with the empty unit. The mapping is a function of the state, so every call
  builds the same one.
\<close>

theorem measurements_entries:
  assumes "stop s0 = Inr s"
  shows "dom (measurements s) =
           {''CPU cycles'', ''CPU instructions'', ''Cache miss ratio'', ''Branch miss ratio''}
         \<and> measurements s ''CPU cycles'' =
             Some \<lparr>m_unit = ''cycles'', m_raw_data = [to_string \<lparr>v = cycles s, is_floating_point = False\<rparr>],
                   m_value = \<lparr>v = cycles s, is_floating_point = False\<rparr>\<rparr>
         \<and> measurements s ''CPU instructions'' =
             Some \<lparr>m_unit = ''instructions'',
                   m_raw_data = [to_string \<lparr>v = instructions s, is_floating_point = False\<rparr>],
                   m_value = \<lparr>v = instructions s, is_floating_point = False\<rparr>\<rparr>
         \<and> measurements s ''Cache miss ratio'' =
             Some \<lparr>m_unit = '''',
                   m_raw_data =
                     [to_string \<lparr>v = fdiv (double_of_int (sint (cache_misses s)))
                                          (double_of_int (sint (cache_references s))),
                                 is_floating_point = True\<rparr>],
                   m_value = \<lparr>v = fdiv (double_of_int (sint (cache_misses s)))
                                       (double_of_int (sint (cache_references s))),
                              is_floating_point = True\<rparr>\<rparr>
         \<and> measurements s ''Branch miss ratio'' =
             Some \<lparr>m_unit = '''',
                   m_raw_data =
                     [to_string \<lparr>v = fdiv (double_of_int (sint (branch_misses s)))
                                          (double_of_int (sint (branch_instructions s))),
                                 is_floating_point = True\<rparr>],
                   m_value = \<lparr>v = fdiv (double_of_int (sint (branch_misses s)))
                                       (double_of_int (sint (branch_instructions s))),
                              is_floating_point = True\<rparr>\<rparr>"
proof -
  have "dom (measurements s) =
          {''CPU cycles'', ''CPU instructions'', ''Cache miss ratio'', ''Branch miss ratio''}"
    unfolding measurements_def dom_map_of_conv_image_fst by simp
  moreover have "measurements s ''CPU cycles'' = Some (Measurement_integer (cycles s) ''cycles'' [])"
    by (simp add: measurements_def)
  moreover have "measurements s ''CPU instructions'' =
      Some (Measurement_integer (instructions s) ''instructions'' [])"
    by (simp add: measurements_def)
  moreover have "measurements s ''Cache miss ratio'' =
      Some (Measurement_floating
        (fdiv (double_of_int (sint (cache_misses s))) (double_of_int (sint (cache_references s)))) '''' [])"
    by (simp add: measurements_def)
  moreover have "measurements s ''Branch miss ratio'' =
      Some (Measurement_floating
        (fdiv (double_of_int (sint (branch_misses s))) (double_of_int (sint (branch_instructions s)))) '''' [])"
    by (simp add: measurements_def)
  ultimately show ?thesis
    by (simp only: Measurement_integer_empty Measurement_floating_empty to_string_integer
        to_string_floating simp_thms)
qed

theorem measurements_entries_witness:
  "stop stub = Inr stub_stopped
   \<and> cycles stub_stopped = 1000 \<and> instructions stub_stopped = 500
   \<and> map_option (\<lambda>m. to_string (m_value m)) (measurements stub_stopped ''CPU cycles'') = Some ''1000''
   \<and> map_option (\<lambda>m. to_string (m_value m)) (measurements stub_stopped ''CPU instructions'') = Some ''500''
   \<and> map_option m_unit (measurements stub_stopped ''CPU cycles'') = Some ''cycles''
   \<and> map_option m_unit (measurements stub_stopped ''CPU instructions'') = Some ''instructions''
   \<and> map_option m_unit (measurements stub_stopped ''Cache miss ratio'') = Some ''''
   \<and> map_option m_unit (measurements stub_stopped ''Branch miss ratio'') = Some ''''"
proof -
  have c: "cycles stub_stopped = 1000" "instructions stub_stopped = 500"
    by (simp_all add: stub_stopped_def)
  from measurements_entries [OF stop_stub] show ?thesis
    by (simp add: stop_stub c to_string_integer show_1000 show_500)
qed

text \<open>
  Claim C9: a Measurement constructed with an empty raw list has a \<open>raw_data\<close> of one
  element, the rendering \<open>to_string\<close> of its value, so \<open>raw_data\<close> is never empty; for
  \<open>Measurement(3.14159, "ms")\<close> that element is "3.1416".
\<close>

theorem raw_data_default:
  "m_raw_data (Measurement_floating x u []) = [to_string (m_value (Measurement_floating x u []))]
   \<and> m_raw_data (Measurement_integer i u []) = [to_string (m_value (Measurement_integer i u []))]
   \<and> m_raw_data (Measurement_floating x u raw) \<noteq> []
   \<and> m_raw_data (Measurement_integer i u raw) \<noteq> []
   \<and> m_raw_data (Measurement_floating (double_of_ratio 314159 100000) ''ms'' []) = [''3.1416'']"
  by (simp add: Measurement_floating_def Measurement_integer_def Value_ctor_def to_string_floating
      show_pi Let_def)

section \<open>Division by zero and special values\<close>

lemma inf_magnitude_bounds: "0 \<le> inf_magnitude" "inf_magnitude < 2 ^ 63"
  by (simp_all add: inf_magnitude_def)

lemma magnitude_make_inf: "magnitude (make_double s inf_magnitude) = inf_magnitude"
  by (rule magnitude_make_double) (rule inf_magnitude_bounds)+

lemma is_inf_make_double: "is_inf (make_double s inf_magnitude)"
  by (simp add: is_inf_def magnitude_make_inf)

lemma sign_bit_make_inf: "sign_bit (make_double s inf_magnitude) = s"
  by (rule sign_bit_make_double) (rule inf_magnitude_bounds)+

lemma is_zero_make_double: "is_zero (make_double s 0)"
  by (simp add: is_zero_def magnitude_make_double)

lemma is_nan_default_nan: "is_nan default_nan"
proof -
  have "magnitude default_nan = inf_magnitude + 2 ^ 51"
    unfolding default_nan_def by (rule magnitude_make_double) (simp_all add: inf_magnitude_def)
  then show ?thesis by (simp add: is_nan_def)
qed

lemma class_0: "\<not> is_nan 0" "\<not> is_inf 0" "is_zero 0"
  by (simp_all add: is_nan_def is_inf_def is_zero_def magnitude_0 inf_magnitude_def)

lemma class_exclusive:
  "is_zero x \<Longrightarrow> \<not> is_nan x" "is_zero x \<Longrightarrow> \<not> is_inf x" "is_inf x \<Longrightarrow> \<not> is_nan x"
  by (simp_all add: is_nan_def is_inf_def is_zero_def inf_magnitude_def)

lemma fdiv_by_zero:
  "fdiv x 0 = (if is_nan x \<or> is_zero x then default_nan else make_double (sign_bit x) inf_magnitude)"
  by (auto simp: fdiv_def class_0 sign_bit_0 class_exclusive)

lemma fdiv_by_zero_special: "is_inf (fdiv x 0) \<or> is_nan (fdiv x 0)"
  by (simp add: fdiv_by_zero is_inf_make_double is_nan_default_nan)

lemma fdiv_int_by_zero:
  "fdiv (double_of_int (sint (w :: 64 word))) 0 =
     (if w = 0 then default_nan else make_double (sint w < 0) inf_magnitude)"
proof (cases "w = 0")
  case True
  then show ?thesis by (simp add: double_of_int_0 fdiv_by_zero class_0)
next
  case False
  then have nz: "sint w \<noteq> 0" by (simp add: sint_eq_0_iff)
  note b = sint64_bounds(1) [of w] sint64_bounds(3) [of w]
  from double_of_int_finite_nonzero [OF nz b] double_of_int_magnitude(2) [OF nz b] False
  show ?thesis by (simp add: fdiv_by_zero)
qed

text \<open>
  Claim C4: when the captured \<open>cache_references\<close> (respectively \<open>branch_instructions\<close>)
  is zero, the ratio that \<open>measurements()\<close> stores is the result of the floating-point
  division by zero, unmodified: a NaN when the numerator is zero too, and otherwise
  the infinity with the sign of the numerator. Nothing guards the division.
\<close>

theorem zero_denominator_ratio:
  "(cache_references s = 0 \<longrightarrow>
      (\<exists>m. measurements s ''Cache miss ratio'' = Some m
         \<and> is_floating_point (m_value m)
         \<and> v (m_value m) = fdiv (double_of_int (sint (cache_misses s))) (double_of_int 0)
         \<and> (if cache_misses s = 0 then is_nan (v (m_value m))
            else is_inf (v (m_value m)) \<and> sign_bit (v (m_value m)) = (sint (cache_misses s) < 0))))
   \<and> (branch_instructions s = 0 \<longrightarrow>
      (\<exists>m. measurements s ''Branch miss ratio'' = Some m
         \<and> is_floating_point (m_value m)
         \<and> v (m_value m) = fdiv (double_of_int (sint (branch_misses s))) (double_of_int 0)
         \<and> (if branch_misses s = 0 then is_nan (v (m_value m))
            else is_inf (v (m_value m)) \<and> sign_bit (v (m_value m)) = (sint (branch_misses s) < 0))))"
  by (simp add: measurements_def Measurement_floating_empty double_of_int_0 fdiv_int_by_zero
      is_nan_default_nan is_inf_make_double sign_bit_make_inf)

theorem zero_denominator_ratio_witness:
  "stop stub = Inr stub_stopped
   \<and> cache_references stub_stopped = 0 \<and> cache_misses stub_stopped = 100
   \<and> map_option (\<lambda>m. v (m_value m)) (measurements stub_stopped ''Cache miss ratio'')
       = Some 0x7FF0000000000000
   \<and> is_inf 0x7FF0000000000000 \<and> \<not> sign_bit 0x7FF0000000000000"
proof -
  have c: "cache_references stub_stopped = 0" "cache_misses stub_stopped = 100"
    by (simp_all add: stub_stopped_def)
  from zero_denominator_ratio [of stub_stopped] c obtain m where
    m: "measurements stub_stopped ''Cache miss ratio'' = Some m"
       "v (m_value m) = fdiv (double_of_int 100) (double_of_int 0)"
    by auto
  have i: "is_inf 0x7FF0000000000000" "\<not> sign_bit 0x7FF0000000000000"
    by (simp_all add: is_inf_def sign_bit_def magnitude_def inf_magnitude_def)
  from m c i stop_stub show ?thesis by (simp add: div_100_0)
qed

section \<open>Division by a scalar\<close>

lemma quot_bounds:
  assumes a: "- (2 ^ 63) \<le> a" "a < 2 ^ 63" and b: "b \<noteq> 0" and x: "\<not> (a = - (2 ^ 63) \<and> b = - 1)"
  shows "- (2 ^ 63) \<le> quot a b" "quot a b < 2 ^ 63"
proof -
  have bp: "0 < \<bar>b\<bar>" using b by simp
  have d0: "0 \<le> \<bar>a\<bar> div \<bar>b\<bar>" using bp by (simp add: pos_imp_zdiv_nonneg_iff)
  have d1: "\<bar>a\<bar> div \<bar>b\<bar> \<le> \<bar>a\<bar>"
  proof (cases "a = 0")
    case True then show ?thesis by simp
  next
    case False
    then have "0 < \<bar>a\<bar>" by simp
    then show ?thesis by (rule int_div_le_self)
  qed
  have le: "\<bar>a\<bar> \<le> 2 ^ 63" using a by simp
  show "- (2 ^ 63) \<le> quot a b" using d0 d1 le by (simp add: quot_def)
  show "quot a b < 2 ^ 63"
  proof (cases "(a < 0) = (b < 0)")
    case False
    then show ?thesis using d0 by (simp add: quot_def)
  next
    case True
    show ?thesis
    proof (cases "0 \<le> a")
      case True
      then have "\<bar>a\<bar> < 2 ^ 63" using a by simp
      with d1 \<open>(a < 0) = (b < 0)\<close> show ?thesis by (simp add: quot_def)
    next
      case False
      with \<open>(a < 0) = (b < 0)\<close> have neg: "a < 0" "b < 0" by auto
      show ?thesis
      proof (cases "b = - 1")
        case True
        with x have "a \<noteq> - (2 ^ 63)" by simp
        with a neg have "\<bar>a\<bar> < 2 ^ 63" by simp
        with d1 \<open>(a < 0) = (b < 0)\<close> show ?thesis by (simp add: quot_def)
      next
        case False
        with neg have b2: "2 \<le> \<bar>b\<bar>" by simp
        have "\<bar>a\<bar> div \<bar>b\<bar> \<le> \<bar>a\<bar> div 2"
          by (rule zdiv_mono2) (use b2 in simp_all)
        also have "\<dots> \<le> 2 ^ 63 div 2" using le by (intro zdiv_mono1) simp_all
        also have "\<dots> < (2 ^ 63 :: int)" by simp
        finally show ?thesis using \<open>(a < 0) = (b < 0)\<close> by (simp add: quot_def)
      qed
    qed
  qed
qed

lemma sint_word_of_int_64:
  assumes "- (2 ^ 63) \<le> k" "k < 2 ^ 63"
  shows "sint (word_of_int k :: 64 word) = k"
  using assms by (simp add: signed_of_int signed_take_bit_int_eq_self)

text \<open>
  Claim C6, as amended: \<^verbatim>\<open>operator/\<close> returns a Value of the tag of its receiver
  for every floating-tagged receiver and every divisor, and there a zero divisor gives
  a floating special value (an infinity or a NaN); for an integer-tagged receiver it
  returns the truncated quotient for every divisor other than zero, the one overflowing
  division \<open>LLONG_MIN / -1\<close> apart. For an integer-tagged receiver and a zero divisor the
  division produces no value. The claim as stated (a result for every Value of either
  tag and every divisor) fails there.
\<close>

theorem divide_by_scalar_defined:
  "(is_floating_point a \<longrightarrow>
      (\<exists>r. operator_div a n = Inr r \<and> is_floating_point r
         \<and> v r = fdiv (v a) (double_of_int (sint n))
         \<and> (n = 0 \<longrightarrow> is_inf (v r) \<or> is_nan (v r))))
   \<and> (\<not> is_floating_point a \<and> n \<noteq> 0 \<and> \<not> (sint (v a) = - (2 ^ 63) \<and> sint n = - 1) \<longrightarrow>
      (\<exists>r. operator_div a n = Inr r \<and> \<not> is_floating_point r
         \<and> sint (v r) = quot (sint (v a)) (sint n)))
   \<and> (\<not> is_floating_point a \<and> n = 0 \<longrightarrow> operator_div a n = Inl Division_by_zero)"
proof (intro conjI impI)
  assume "is_floating_point a"
  then show "\<exists>r. operator_div a n = Inr r \<and> is_floating_point r
         \<and> v r = fdiv (v a) (double_of_int (sint n))
         \<and> (n = 0 \<longrightarrow> is_inf (v r) \<or> is_nan (v r))"
    by (simp add: operator_div_def Value_ctor_def double_of_int_0 fdiv_by_zero_special)
next
  assume h: "\<not> is_floating_point a \<and> n \<noteq> 0 \<and> \<not> (sint (v a) = - (2 ^ 63) \<and> sint n = - 1)"
  then have nz: "sint n \<noteq> 0" by (simp add: sint_eq_0_iff)
  from h have x: "\<not> (sint (v a) = - (2 ^ 63) \<and> sint n = - 1)" by simp
  note q = quot_bounds [OF sint64_bounds(1) sint64_bounds(2) nz x]
  have "sint (word_of_int (quot (sint (v a)) (sint n)) :: 64 word) = quot (sint (v a)) (sint n)"
    using q by (rule sint_word_of_int_64)
  with h nz show "\<exists>r. operator_div a n = Inr r \<and> \<not> is_floating_point r
         \<and> sint (v r) = quot (sint (v a)) (sint n)"
    by (auto simp: operator_div_def Value_ctor_def)
next
  assume "\<not> is_floating_point a \<and> n = 0"
  then show "operator_div a n = Inl Division_by_zero"
    by (simp add: operator_div_def)
qed

theorem divide_by_scalar_defined_witness:
  "operator_div \<lparr>v = 0x4000000000000000, is_floating_point = True\<rparr> 0
     = Inr \<lparr>v = 0x7FF0000000000000, is_floating_point = True\<rparr>
   \<and> is_inf 0x7FF0000000000000
   \<and> operator_div \<lparr>v = - 7, is_floating_point = False\<rparr> 2 = Inr \<lparr>v = - 3, is_floating_point = False\<rparr>
   \<and> operator_div \<lparr>v = 1, is_floating_point = False\<rparr> 0 = Inl Division_by_zero"
proof -
  have f: "fdiv 0x4000000000000000 0 = 0x7FF0000000000000" by code_simp
  have i: "is_inf 0x7FF0000000000000"
    by (simp add: is_inf_def magnitude_def inf_magnitude_def)
  have q: "quot (- 7) 2 = - 3" by (simp add: quot_def)
  have s: "sint (- 7 :: 64 word) = - 7" "sint (2 :: 32 word) = 2" "sint (- 3 :: 64 word) = - 3" by simp_all
  have e: "\<And>x y :: 64 word. sint x = sint y \<Longrightarrow> x = y" by (rule signed_word_eqI)
  from divide_by_scalar_defined [of "\<lparr>v = 0x4000000000000000, is_floating_point = True\<rparr>" 0]
  have 1: "operator_div \<lparr>v = 0x4000000000000000, is_floating_point = True\<rparr> 0
     = Inr \<lparr>v = 0x7FF0000000000000, is_floating_point = True\<rparr>"
    by (auto simp: double_of_int_0 f)
  from divide_by_scalar_defined [of "\<lparr>v = - 7, is_floating_point = False\<rparr>" 2]
  obtain r where r: "operator_div \<lparr>v = - 7, is_floating_point = False\<rparr> 2 = Inr r"
    "\<not> is_floating_point r" "sint (v r) = - 3"
    by (auto simp: s q)
  from r(3) have "v r = - 3" using e [of "v r" "- 3"] by (simp add: s)
  with r have 2: "operator_div \<lparr>v = - 7, is_floating_point = False\<rparr> 2 = Inr \<lparr>v = - 3, is_floating_point = False\<rparr>"
    by (cases r) simp
  from divide_by_scalar_defined [of "\<lparr>v = 1, is_floating_point = False\<rparr>" 0]
  have 3: "operator_div \<lparr>v = 1, is_floating_point = False\<rparr> 0 = Inl Division_by_zero" by simp
  from 1 2 3 i show ?thesis by simp
qed

theorem divide_by_zero_counterexample:
  "operator_div \<lparr>v = 1, is_floating_point = False\<rparr> 0 = Inl Division_by_zero"
  by (simp add: operator_div_def)

section \<open>Relative standard deviation\<close>

lemma hundred:
  "\<not> is_nan (double_of_int 100)" "\<not> is_inf (double_of_int 100)" "\<not> sign_bit (double_of_int 100)"
  using double_of_int_finite_nonzero [of 100] double_of_int_magnitude(2) [of 100] by simp_all

lemma fsqrt_zero: "is_zero x \<Longrightarrow> fsqrt x = x"
  by (simp add: fsqrt_def class_exclusive)

lemma fmul_zero:
  assumes "\<not> is_nan x" "\<not> is_inf x" "is_zero y"
  shows "fmul x y = make_double (sign_bit x \<noteq> sign_bit y) 0"
  using assms by (simp add: fmul_def class_exclusive)

lemma fdiv_zero_numerator:
  assumes "is_zero x" "\<not> is_nan y" "\<not> is_zero y"
  shows "fdiv x y = make_double (sign_bit x \<noteq> sign_bit y) 0"
  using assms by (simp add: fdiv_def class_exclusive)

lemma rsd_zero_variance:
  assumes "is_zero x" "\<not> is_nan y" "\<not> is_zero y"
  shows "is_zero (fdiv (fmul (double_of_int 100) (fsqrt x)) y)"
proof -
  have "is_zero (fmul (double_of_int 100) (fsqrt x))"
    using assms(1) by (simp add: fsqrt_zero fmul_zero hundred is_zero_make_double)
  then show ?thesis using assms(2,3) by (simp add: fdiv_zero_numerator is_zero_make_double)
qed

lemma rsd_nan_mean:
  assumes "is_floating_point variance" "is_nan (v mean)"
  shows "is_nan (relative_standard_deviation variance mean)"
  using assms by (simp add: relative_standard_deviation_def fdiv_def is_nan_default_nan)

text \<open>
  Claim C5, as amended: \<open>relative_standard_deviation(variance, mean)\<close> is the double
  \<open>100 * sqrt(variance) / mean\<close>, where for integer-tagged arguments both are converted
  to double before the square root and the division; it is a zero whenever
  \<open>variance\<close> is zero and \<open>mean\<close> is a number other than zero. For a floating-tagged
  \<open>mean\<close> that is a NaN, which also compares unequal to zero, the result is a NaN.
\<close>

theorem relative_standard_deviation_value:
  "(is_floating_point variance \<longrightarrow>
      relative_standard_deviation variance mean
        = fdiv (fmul (double_of_int 100) (fsqrt (v variance))) (v mean))
   \<and> (\<not> is_floating_point variance \<longrightarrow>
      relative_standard_deviation variance mean
        = fdiv (fmul (double_of_int 100) (fsqrt (double_of_int (sint (v variance)))))
            (double_of_int (sint (v mean))))
   \<and> (is_floating_point variance \<and> is_floating_point mean \<and> is_zero (v variance)
        \<and> \<not> is_zero (v mean) \<and> \<not> is_nan (v mean) \<longrightarrow>
      is_zero (relative_standard_deviation variance mean))
   \<and> (\<not> is_floating_point variance \<and> \<not> is_floating_point mean \<and> v variance = 0 \<and> v mean \<noteq> 0 \<longrightarrow>
      is_zero (relative_standard_deviation variance mean))"
proof (intro conjI impI)
  assume h: "\<not> is_floating_point variance \<and> \<not> is_floating_point mean \<and> v variance = 0 \<and> v mean \<noteq> 0"
  then have nz: "sint (v mean) \<noteq> 0" by (simp add: sint_eq_0_iff)
  note f = double_of_int_finite_nonzero [OF nz sint64_bounds(1) sint64_bounds(3)]
  have "is_zero (fdiv (fmul (double_of_int 100) (fsqrt 0)) (double_of_int (sint (v mean))))"
    using class_0(3) f(1) f(3) by (rule rsd_zero_variance)
  with h show "is_zero (relative_standard_deviation variance mean)"
    by (simp add: relative_standard_deviation_def double_of_int_0)
qed (simp_all add: relative_standard_deviation_def rsd_zero_variance)

theorem relative_standard_deviation_value_witness:
  "relative_standard_deviation \<lparr>v = 0, is_floating_point = False\<rparr> \<lparr>v = 5, is_floating_point = False\<rparr> = 0
   \<and> is_zero (relative_standard_deviation \<lparr>v = 0, is_floating_point = False\<rparr> \<lparr>v = 5, is_floating_point = False\<rparr>)
   \<and> is_zero (relative_standard_deviation \<lparr>v = 0, is_floating_point = True\<rparr>
        \<lparr>v = 0xC000000000000000, is_floating_point = True\<rparr>)
   \<and> relative_standard_deviation \<lparr>v = 0, is_floating_point = True\<rparr>
        \<lparr>v = 0xC000000000000000, is_floating_point = True\<rparr> = 0x8000000000000000
   \<and> relative_standard_deviation \<lparr>v = 4, is_floating_point = False\<rparr> \<lparr>v = 2, is_floating_point = False\<rparr>
       = 0x4059000000000000"
proof -
  have m: "\<not> is_zero 0xC000000000000000" "\<not> is_nan 0xC000000000000000"
    by (simp_all add: is_zero_def is_nan_def magnitude_def inf_magnitude_def)
  have a: "is_zero (relative_standard_deviation \<lparr>v = 0, is_floating_point = False\<rparr> \<lparr>v = 5, is_floating_point = False\<rparr>)"
    using relative_standard_deviation_value
      [of "\<lparr>v = 0, is_floating_point = False\<rparr>" "\<lparr>v = 5, is_floating_point = False\<rparr>",
       THEN conjunct2, THEN conjunct2, THEN conjunct2]
    by simp
  have b: "is_zero (relative_standard_deviation \<lparr>v = 0, is_floating_point = True\<rparr>
        \<lparr>v = 0xC000000000000000, is_floating_point = True\<rparr>)"
    using relative_standard_deviation_value
      [of "\<lparr>v = 0, is_floating_point = True\<rparr>" "\<lparr>v = 0xC000000000000000, is_floating_point = True\<rparr>",
       THEN conjunct2, THEN conjunct2, THEN conjunct1]
    by (simp add: class_0 m)
  have c: "relative_standard_deviation \<lparr>v = 0, is_floating_point = False\<rparr> \<lparr>v = 5, is_floating_point = False\<rparr> = 0"
    by code_simp
  have d: "relative_standard_deviation \<lparr>v = 0, is_floating_point = True\<rparr>
        \<lparr>v = 0xC000000000000000, is_floating_point = True\<rparr> = 0x8000000000000000"
    by code_simp
  have e: "relative_standard_deviation \<lparr>v = 4, is_floating_point = False\<rparr> \<lparr>v = 2, is_floating_point = False\<rparr>
       = 0x4059000000000000"
    by code_simp
  from a b c d e show ?thesis by simp
qed

theorem rsd_nan_mean_counterexample:
  "is_zero (v \<lparr>v = 0, is_floating_point = True\<rparr>)
   \<and> \<not> is_zero (v \<lparr>v = 0x7FF8000000000000, is_floating_point = True\<rparr>)
   \<and> is_nan (relative_standard_deviation \<lparr>v = 0, is_floating_point = True\<rparr>
        \<lparr>v = 0x7FF8000000000000, is_floating_point = True\<rparr>)
   \<and> \<not> is_zero (relative_standard_deviation \<lparr>v = 0, is_floating_point = True\<rparr>
        \<lparr>v = 0x7FF8000000000000, is_floating_point = True\<rparr>)"
proof -
  have n: "is_nan 0x7FF8000000000000" "\<not> is_zero 0x7FF8000000000000"
    by (simp_all add: is_zero_def is_nan_def magnitude_def inf_magnitude_def)
  have "relative_standard_deviation \<lparr>v = 0, is_floating_point = True\<rparr>
        \<lparr>v = 0x7FF8000000000000, is_floating_point = True\<rparr> = default_nan"
    by (simp add: relative_standard_deviation_def fdiv_def n)
  moreover have "\<not> is_zero default_nan" using is_nan_default_nan class_exclusive(1) by blast
  ultimately show ?thesis using n is_nan_default_nan by (simp add: class_0)
qed

section \<open>The interval between start and stop\<close>

text \<open>
  Claim C7, as amended: \<open>start()\<close> resets all six counter handles to zero and leaves
  the six accumulators as they are, so until the next \<open>stop()\<close> the mapping of
  \<open>measurements()\<close> is still the one of the earlier interval; the \<open>stop()\<close> that follows
  overwrites all six accumulators, each with the number of events its counter counted
  since that \<open>start()\<close>, or with zero when the counter cannot be read. The claim as
  stated has \<open>start()\<close> discard the captured data.
\<close>

theorem start_then_stop_interval:
  "count (pmu_cycles (start s)) = 0 \<and> count (pmu_instructions (start s)) = 0
   \<and> count (pmu_cache_references (start s)) = 0 \<and> count (pmu_cache_misses (start s)) = 0
   \<and> count (pmu_branch_instructions (start s)) = 0 \<and> count (pmu_branch_misses (start s)) = 0
   \<and> cycles (start s) = cycles s \<and> instructions (start s) = instructions s
   \<and> cache_references (start s) = cache_references s \<and> cache_misses (start s) = cache_misses s
   \<and> branch_instructions (start s) = branch_instructions s \<and> branch_misses (start s) = branch_misses s
   \<and> measurements (start s) = measurements s
   \<and> (\<exists>s'. stop (workload d1 d2 d3 d4 d5 d6 (start s)) = Inr s'
         \<and> cycles s' = (if readable (pmu_cycles s) then d1 else 0)
         \<and> instructions s' = (if readable (pmu_instructions s) then d2 else 0)
         \<and> cache_references s' = (if readable (pmu_cache_references s) then d3 else 0)
         \<and> cache_misses s' = (if readable (pmu_cache_misses s) then d4 else 0)
         \<and> branch_instructions s' = (if readable (pmu_branch_instructions s) then d5 else 0)
         \<and> branch_misses s' = (if readable (pmu_branch_misses s) then d6 else 0))"
proof -
  have a: "count (pmu_cycles (start s)) = 0 \<and> count (pmu_instructions (start s)) = 0
   \<and> count (pmu_cache_references (start s)) = 0 \<and> count (pmu_cache_misses (start s)) = 0
   \<and> count (pmu_branch_instructions (start s)) = 0 \<and> count (pmu_branch_misses (start s)) = 0"
    by (simp add: start_def reset_def)
  have b: "cycles (start s) = cycles s \<and> instructions (start s) = instructions s
   \<and> cache_references (start s) = cache_references s \<and> cache_misses (start s) = cache_misses s
   \<and> branch_instructions (start s) = branch_instructions s \<and> branch_misses (start s) = branch_misses s"
    by (simp add: start_def)
  have c: "measurements (start s) = measurements s"
    using b by (simp add: measurements_def)
  have d: "\<exists>s'. stop (workload d1 d2 d3 d4 d5 d6 (start s)) = Inr s'
         \<and> cycles s' = (if readable (pmu_cycles s) then d1 else 0)
         \<and> instructions s' = (if readable (pmu_instructions s) then d2 else 0)
         \<and> cache_references s' = (if readable (pmu_cache_references s) then d3 else 0)
         \<and> cache_misses s' = (if readable (pmu_cache_misses s) then d4 else 0)
         \<and> branch_instructions s' = (if readable (pmu_branch_instructions s) then d5 else 0)
         \<and> branch_misses s' = (if readable (pmu_branch_misses s) then d6 else 0)"
    by (simp add: stop_result workload_def advance_def start_def reset_def)
  from a b c d show ?thesis by (intro conjI) simp_all
qed

theorem start_then_stop_interval_witness:
  "(case stop (workload 10 20 30 40 50 60 (start stub_stopped)) of
      Inl e \<Rightarrow> False
    | Inr s' \<Rightarrow>
        cycles s' = 10 \<and> instructions s' = 20 \<and> cache_references s' = 0
        \<and> cache_misses s' = 40 \<and> branch_instructions s' = 50 \<and> branch_misses s' = 60)"
proof -
  have r: "readable (pmu_cycles stub_stopped)" "readable (pmu_instructions stub_stopped)"
    "\<not> readable (pmu_cache_references stub_stopped)" "readable (pmu_cache_misses stub_stopped)"
    "readable (pmu_branch_instructions stub_stopped)" "readable (pmu_branch_misses stub_stopped)"
    by (simp_all add: stub_stopped_def)
  from start_then_stop_interval [of stub_stopped 10 20 30 40 50 60] obtain s' where
    "stop (workload 10 20 30 40 50 60 (start stub_stopped)) = Inr s'"
    "cycles s' = (if readable (pmu_cycles stub_stopped) then 10 else 0)"
    "instructions s' = (if readable (pmu_instructions stub_stopped) then 20 else 0)"
    "cache_references s' = (if readable (pmu_cache_references stub_stopped) then 30 else 0)"
    "cache_misses s' = (if readable (pmu_cache_misses stub_stopped) then 40 else 0)"
    "branch_instructions s' = (if readable (pmu_branch_instructions stub_stopped) then 50 else 0)"
    "branch_misses s' = (if readable (pmu_branch_misses stub_stopped) then 60 else 0)"
    by blast
  with r show ?thesis by simp
qed

theorem start_keeps_captured_counterexample:
  "stop stub = Inr stub_stopped
   \<and> cycles (start stub_stopped) = 1000
   \<and> instructions (start stub_stopped) = 500
   \<and> map_option (\<lambda>m. to_string (m_value m)) (measurements (start stub_stopped) ''CPU cycles'')
       = Some ''1000''
   \<and> map_option (\<lambda>m. to_string (m_value m)) (measurements (start stub_stopped) ''CPU instructions'')
       = Some ''500''"
proof -
  have c: "cycles (start stub_stopped) = 1000" "instructions (start stub_stopped) = 500"
    by (simp_all add: start_def stub_stopped_def)
  then show ?thesis
    by (simp add: stop_stub measurements_def Measurement_integer_empty to_string_integer
        show_1000 show_500)
qed

section \<open>The rendering of integers\<close>

lemma digit_cases:
  assumes "0 \<le> d" "d < 10"
  shows "d = 0 \<or> d = 1 \<or> d = 2 \<or> d = 3 \<or> d = 4 \<or> d = 5 \<or> d = 6 \<or> d = 7 \<or> d = 8 \<or> d = (9::int)"
  using assms by arith

lemma digit_value_digit_char:
  assumes "0 \<le> d" "d < 10"
  shows "digit_value (digit_char d) = Some d"
  using digit_cases [OF assms] by (auto simp: digit_value_def digit_char_def)

lemma digit_char_in_digits:
  assumes "0 \<le> d" "d < 10"
  shows "digit_char d \<in> set ''0123456789''"
  using digit_cases [OF assms] by (auto simp: digit_char_def)

lemma digit_char_not_zero:
  assumes "0 < d" "d < 10"
  shows "digit_char d \<noteq> CHR ''0''"
proof -
  from assms have "0 \<le> d" by simp
  from digit_cases [OF this assms(2)] assms(1) show ?thesis by (auto simp: digit_char_def)
qed

lemma parse_digits_snoc:
  "parse_digits acc (xs @ [c]) =
     (case parse_digits acc xs of
        None \<Rightarrow> None
      | Some a \<Rightarrow> (case digit_value c of None \<Rightarrow> None | Some d \<Rightarrow> Some (10 * a + d)))"
  by (induction xs arbitrary: acc) (auto split: option.splits)

lemma dec_nat_not_empty: "dec_nat n \<noteq> []"
  by (subst dec_nat.simps) simp

lemma parse_digits_dec_nat: "0 \<le> n \<Longrightarrow> parse_digits 0 (dec_nat n) = Some n"
proof (induction n rule: dec_nat.induct)
  case (1 n)
  show ?case
  proof (cases "n < 10")
    case True
    with "1.prems" show ?thesis
      by (subst dec_nat.simps) (simp add: digit_value_digit_char)
  next
    case False
    then have "0 \<le> n div 10" by simp
    with "1.IH" False have ih: "parse_digits 0 (dec_nat (n div 10)) = Some (n div 10)" by simp
    have m: "0 \<le> n mod 10" "n mod 10 < 10" by simp_all
    have "dec_nat n = dec_nat (n div 10) @ [digit_char (n mod 10)]"
      using False by (subst dec_nat.simps) simp
    then show ?thesis
      by (simp add: parse_digits_snoc ih digit_value_digit_char [OF m])
  qed
qed

lemma dec_nat_digits: "0 \<le> n \<Longrightarrow> set (dec_nat n) \<subseteq> set ''0123456789''"
proof (induction n rule: dec_nat.induct)
  case (1 n)
  show ?case
  proof (cases "n < 10")
    case True
    with "1.prems" digit_char_in_digits [of n] show ?thesis
      by (subst dec_nat.simps) simp
  next
    case False
    then have "0 \<le> n div 10" by simp
    with "1.IH" False have ih: "set (dec_nat (n div 10)) \<subseteq> set ''0123456789''" by simp
    have m: "0 \<le> n mod 10" "n mod 10 < 10" by simp_all
    have "dec_nat n = dec_nat (n div 10) @ [digit_char (n mod 10)]"
      using False by (subst dec_nat.simps) simp
    with ih digit_char_in_digits [OF m] show ?thesis by simp
  qed
qed

lemma dec_nat_no_leading_zero: "0 < n \<Longrightarrow> hd (dec_nat n) \<noteq> CHR ''0''"
proof (induction n rule: dec_nat.induct)
  case (1 n)
  show ?case
  proof (cases "n < 10")
    case True
    with "1.prems" digit_char_not_zero [of n] show ?thesis
      by (subst dec_nat.simps) simp
  next
    case False
    then have "0 < n div 10" by simp
    with "1.IH" False have ih: "hd (dec_nat (n div 10)) \<noteq> CHR ''0''" by simp
    have "dec_nat n = dec_nat (n div 10) @ [digit_char (n mod 10)]"
      using False by (subst dec_nat.simps) simp
    with ih show ?thesis by (simp add: dec_nat_not_empty)
  qed
qed

lemma parse_integer_dec_nat:
  assumes "0 \<le> n"
  shows "parse_integer (dec_nat n) = Some n"
proof -
  obtain c cs where e: "dec_nat n = c # cs" using dec_nat_not_empty [of n] by (cases "dec_nat n") auto
  have "c \<in> set ''0123456789''" using dec_nat_digits [OF assms] e by auto
  then have "c \<noteq> CHR ''-''" by auto
  with e parse_digits_dec_nat [OF assms] show ?thesis by (simp add: parse_integer_def)
qed

lemma parse_integer_minus_dec_nat:
  assumes "0 \<le> n"
  shows "parse_integer (CHR ''-'' # dec_nat n) = Some (- n)"
  using parse_digits_dec_nat [OF assms] by (simp add: parse_integer_def dec_nat_not_empty)

text \<open>
  Claim C8: for an integer-tagged Value holding the 64-bit signed integer \<open>n\<close>,
  \<open>to_string()\<close> is the plain decimal numeral of \<open>n\<close>: a minus sign when \<open>n\<close> is negative,
  then the decimal digits of \<open>\<bar>n\<bar>\<close> and no other character (no exponent, no
  separators, no leading zero), and reading that string back as an integer gives
  exactly \<open>n\<close>.
\<close>

theorem to_string_integer_round_trip:
  assumes "\<not> is_floating_point a"
  shows "to_string a = (if sint (v a) < 0 then ''-'' else '''') @ dec_nat \<bar>sint (v a)\<bar>
         \<and> dec_nat \<bar>sint (v a)\<bar> \<noteq> []
         \<and> set (dec_nat \<bar>sint (v a)\<bar>) \<subseteq> set ''0123456789''
         \<and> (v a \<noteq> 0 \<longrightarrow> hd (dec_nat \<bar>sint (v a)\<bar>) \<noteq> CHR ''0'')
         \<and> parse_integer (to_string a) = Some (sint (v a))"
proof -
  have s: "to_string a = (if sint (v a) < 0 then ''-'' else '''') @ dec_nat \<bar>sint (v a)\<bar>"
    using assms by (simp add: to_string_def operator_output_def show_long_long_def)
  have p: "parse_integer (to_string a) = Some (sint (v a))"
  proof (cases "sint (v a) < 0")
    case True
    then have "0 \<le> - sint (v a)" by simp
    from parse_integer_minus_dec_nat [OF this] True show ?thesis by (simp add: s)
  next
    case False
    then have "0 \<le> sint (v a)" by simp
    from parse_integer_dec_nat [OF this] False show ?thesis by (simp add: s)
  qed
  have z: "v a \<noteq> 0 \<longrightarrow> hd (dec_nat \<bar>sint (v a)\<bar>) \<noteq> CHR ''0''"
  proof
    assume "v a \<noteq> 0"
    then have "0 < \<bar>sint (v a)\<bar>" by (simp add: sint_eq_0_iff)
    then show "hd (dec_nat \<bar>sint (v a)\<bar>) \<noteq> CHR ''0''" by (rule dec_nat_no_leading_zero)
  qed
  from s p z dec_nat_not_empty dec_nat_digits [of "\<bar>sint (v a)\<bar>"] show ?thesis by simp
qed

theorem to_string_integer_round_trip_witness:
  "to_string \<lparr>v = - 9223372036854775808, is_floating_point = False\<rparr> = ''-9223372036854775808''
   \<and> parse_integer ''-9223372036854775808'' = Some (- 9223372036854775808)
   \<and> sint (- 9223372036854775808 :: 64 word) = - 9223372036854775808
   \<and> to_string \<lparr>v = 9223372036854775807, is_floating_point = False\<rparr> = ''9223372036854775807''
   \<and> parse_integer ''9223372036854775807'' = Some 9223372036854775807"
proof -
  have a: "to_string \<lparr>v = - 9223372036854775808, is_floating_point = False\<rparr> = ''-9223372036854775808''"
    by code_simp
  have b: "to_string \<lparr>v = 9223372036854775807, is_floating_point = False\<rparr> = ''9223372036854775807''"
    by code_simp
  have c: "sint (- 9223372036854775808 :: 64 word) = - 9223372036854775808"
    "sint (9223372036854775807 :: 64 word) = 9223372036854775807" by simp_all
  have "parse_integer (to_string \<lparr>v = - 9223372036854775808, is_floating_point = False\<rparr>)
      = Some (sint (v \<lparr>v = - 9223372036854775808 :: 64 word, is_floating_point = False\<rparr>))"
    by (rule to_string_integer_round_trip [THEN conjunct2, THEN conjunct2, THEN conjunct2, THEN conjunct2])
      simp
  then have d: "parse_integer ''-9223372036854775808'' = Some (- 9223372036854775808)"
    by (simp only: a c Value.simps)
  have "parse_integer (to_string \<lparr>v = 9223372036854775807, is_floating_point = False\<rparr>)
      = Some (sint (v \<lparr>v = 9223372036854775807 :: 64 word, is_floating_point = False\<rparr>))"
    by (rule to_string_integer_round_trip [THEN conjunct2, THEN conjunct2, THEN conjunct2, THEN conjunct2])
      simp
  then have e: "parse_integer ''9223372036854775807'' = Some 9223372036854775807"
    by (simp only: b c Value.simps)
  from a b c d e show ?thesis by simp
qed

section \<open>Checks of the number model\<close>

lemma isqrt_from_correct:
  assumes "r * r \<le> n" "n < (r + 2 ^ k) * (r + 2 ^ k)"
  shows "isqrt_from k n r * isqrt_from k n r \<le> n
         \<and> n < (isqrt_from k n r + 1) * (isqrt_from k n r + 1)"
  using assms
proof (induction k arbitrary: r)
  case 0
  then show ?case by simp
next
  case (Suc k)
  show ?case
  proof (cases "(r + 2 ^ k) * (r + 2 ^ k) \<le> n")
    case True
    have "r + 2 ^ k + 2 ^ k = r + 2 ^ Suc k" by simp
    with Suc.prems(2) have "n < (r + 2 ^ k + 2 ^ k) * (r + 2 ^ k + 2 ^ k)" by (simp only:)
    from Suc.IH [OF True this] True show ?thesis by simp
  next
    case False
    then have "n < (r + 2 ^ k) * (r + 2 ^ k)" by simp
    from Suc.IH [OF Suc.prems(1) this] False show ?thesis by simp
  qed
qed

lemma isqrt_correct:
  assumes "0 \<le> n"
  shows "isqrt n * isqrt n \<le> n \<and> n < (isqrt n + 1) * (isqrt n + 1)"
proof -
  have lt: "n < 2 ^ bitlen n"
  proof (cases "n = 0")
    case True
    then show ?thesis by simp
  next
    case False
    with assms have "0 < n" by simp
    then show ?thesis using bitlen_bounds by simp
  qed
  have "(1::int) \<le> 2 ^ bitlen n" by simp
  then have "(2::int) ^ bitlen n * 1 \<le> 2 ^ bitlen n * 2 ^ bitlen n"
    by (intro mult_left_mono) simp_all
  then have "(2::int) ^ bitlen n \<le> 2 ^ bitlen n * 2 ^ bitlen n" by (simp only: mult_1_right)
  with lt have "n < 2 ^ bitlen n * 2 ^ bitlen n" by (rule less_le_trans)
  then have "n < (0 + 2 ^ bitlen n) * (0 + 2 ^ bitlen n)" by simp
  moreover have "0 * 0 \<le> n" using assms by simp
  ultimately show ?thesis unfolding isqrt_def by (rule isqrt_from_correct [rotated])
qed

text \<open>
  Known values of binary64 arithmetic: \<open>0.1 + 0.2\<close> is \<open>0.30000000000000004\<close>,
  \<open>1 / 3\<close>, the square roots of 2 and of 4, \<open>100 * 0.07\<close>, an overflow to infinity, a
  subnormal quotient, the conversion of \<open>2 ^ 53 + 1\<close> (a tie, rounded to even),
  and renderings in fixed notation with four digits (the double nearest to \<open>0.00005\<close>
  lies above the tie, the one nearest to \<open>0.00015\<close> below it, and \<open>0.03125\<close> is a tie).
\<close>

lemma known_sum: "fadd 0x3FB999999999999A 0x3FC999999999999A = 0x3FD3333333333334"
  by code_simp

lemma known_quotient: "fdiv (double_of_int 1) (double_of_int 3) = 0x3FD5555555555555"
  by code_simp

lemma known_roots: "fsqrt 0x4000000000000000 = 0x3FF6A09E667F3BCD" "fsqrt (double_of_int 4) = double_of_int 2"
  by code_simp+

lemma known_product: "fmul (double_of_int 100) 0x3FB1EB851EB851EC = 0x401C000000000001"
  by code_simp

lemma known_overflow: "fmul 0x7FEFFFFFFFFFFFFF (double_of_int 2) = 0x7FF0000000000000"
  by code_simp

lemma known_subnormal: "fdiv 0x0000000000000003 (double_of_int 2) = 0x0000000000000002"
  by code_simp

lemma known_conversion: "double_of_int 9007199254740993 = 0x4340000000000000"
  by code_simp

lemma known_renderings:
  "show_fixed 4 (double_of_int 1) = ''1.0000''"
  "show_fixed 4 (double_of_ratio 5 100000) = ''0.0001''"
  "show_fixed 4 (double_of_ratio 15 100000) = ''0.0001''"
  "show_fixed 4 (double_of_ratio 3125 100000) = ''0.0312''"
  "show_fixed 4 (fneg (double_of_ratio 25 10)) = ''-2.5000''"
  "show_fixed 4 default_nan = ''nan''"
  by code_simp+

end
